theory Spec2Isabelle
  imports Main "HOL-Library.Word"
begin

section \<open>Metadata search of the Go SDK: \<^verbatim>\<open>metadata_search.go\<close>\<close>

text \<open>
  The Go file wraps a C library through cgo. The Go functions \<^verbatim>\<open>Start\<close>,
  \<^verbatim>\<open>Get\<close>, \<^verbatim>\<open>close\<close> and \<^verbatim>\<open>processResult\<close> are embedded below, statement by
  statement. The C library and the remote service are not part of the file: they are
  modelled as a heap of C handles, a service that answers the two remote calls, and two
  cursors over a completed result.
\<close>

subsection \<open>Go values\<close>

type_synonym uint64 = "64 word"
type_synonym int64 = "64 word"  \<comment> \<open>read through \<open>sint\<close>\<close>

text \<open>A C pointer is an address; Go's \<^verbatim>\<open>nil\<close> pointer is \<open>None\<close> of \<open>addr option\<close>.\<close>

type_synonym addr = nat

text \<open>
  The conversions \<^verbatim>\<open>uint64(v)\<close> from \<^verbatim>\<open>C.uint64_t\<close> and \<^verbatim>\<open>int64(v)\<close> from
  \<^verbatim>\<open>C.int64_t\<close>: an unsigned, respectively signed, cast between types of the same width.
\<close>

definition uint64 :: "64 word \<Rightarrow> uint64" where
  "uint64 v = ucast v"

definition int64 :: "64 word \<Rightarrow> int64" where
  "int64 v = scast v"

text \<open>
  A Go slice is either \<^verbatim>\<open>nil\<close> (\<open>None\<close>) or a backing sequence (\<open>Some xs\<close>). A variable
  declared by \<^verbatim>\<open>var s []T\<close> is \<^verbatim>\<open>nil\<close>; \<^verbatim>\<open>append\<close> to a \<^verbatim>\<open>nil\<close> slice allocates, so its
  result is never \<^verbatim>\<open>nil\<close>; \<^verbatim>\<open>len\<close> of the \<^verbatim>\<open>nil\<close> slice is 0. The slices of the file hold
  pointers to structs allocated by \<^verbatim>\<open>&T{...}\<close> at the append and never written again, so an
  element is modelled by the struct it points to.
\<close>

type_synonym 'a slice = "'a list option"

definition append_slice :: "'a slice \<Rightarrow> 'a \<Rightarrow> 'a slice" where
  "append_slice s v = (case s of None \<Rightarrow> Some [v] | Some xs \<Rightarrow> Some (xs @ [v]))"

definition len :: "'a slice \<Rightarrow> nat" where
  "len s = (case s of None \<Rightarrow> 0 | Some xs \<Rightarrow> length xs)"

definition elems :: "'a slice \<Rightarrow> 'a list" where
  "elems s = (case s of None \<Rightarrow> [] | Some xs \<Rightarrow> xs)"

text \<open>
  \<^verbatim>\<open>Segment\<close> and \<^verbatim>\<open>Fingerprint\<close> are declared in other files of the package; the fields
  below are the ones this file reads and writes.
\<close>

record Segment =
  QueryStart :: int64
  QueryEnd :: int64
  AssetStart :: int64
  AssetEnd :: int64

record Fingerprint =
  ft :: addr

record MetadataSearchRequest =
  Fingerprint :: "Fingerprint option"

record MetadataSearchMatch =
  AssetID :: uint64
  Segments :: "Segment slice"

record MetadataSearchResult =
  LookupID :: uint64
  UGCID :: uint64
  Matches :: "MetadataSearchMatch slice"

text \<open>
  \<^verbatim>\<open>MetadataSearchFuture\<close>: the fields \<^verbatim>\<open>LookupID\<close>, \<^verbatim>\<open>c\<close> and \<^verbatim>\<open>m\<close>. The mutex is a flag,
  \<open>True\<close> while it is held.
\<close>

record MetadataSearchFuture =
  Future_LookupID :: uint64
  Future_c :: "addr option"
  Future_m :: bool

datatype go_error =
  errorString string  \<comment> \<open>\<^verbatim>\<open>errors.New(msg)\<close>\<close>
| StatusError int string

text \<open>
  How a call ends. A Go function returns or panics; in both cases its deferred calls run.
  \<open>Blocked\<close> is a call that waits forever (for a mutex that is held, or for a service that
  never answers) and \<open>Crash\<close> is the C library handed a pointer that is not a live handle of
  the right kind (undefined behaviour in C, which ends the process): neither returns, and
  no deferred call runs.
\<close>

datatype 'a outcome = Returned 'a | Panic string | Blocked | Crash

definition deferred :: "('s \<Rightarrow> 's) \<Rightarrow> 'a outcome \<times> 's \<Rightarrow> 'a outcome \<times> 's" where
  "deferred f rs =
     (case fst rs of
        Blocked \<Rightarrow> rs
      | Crash \<Rightarrow> rs
      | _ \<Rightarrow> (fst rs, f (snd rs)))"

definition nil_dereference :: string where
  "nil_dereference = ''runtime error: invalid memory address or nil pointer dereference''"

subsection \<open>The C library\<close>

text \<open>
  Modelled from the spec: the status object and the function \<^verbatim>\<open>statusToError\<close>, which
  another file of the package defines. A status is either success or a failure with a code
  and a message; \<^verbatim>\<open>statusToError\<close> is a pure function that gives \<^verbatim>\<open>nil\<close> exactly on
  success.
\<close>

datatype AE_Status = StatusOK | StatusFailed int string

definition statusToError :: "AE_Status \<Rightarrow> go_error option" where
  "statusToError st =
     (case st of StatusOK \<Rightarrow> None | StatusFailed code msg \<Rightarrow> Some (StatusError code msg))"

text \<open>
  Modelled from the spec: a completed result as the C library holds it, with its two
  cursors. \<^verbatim>\<open>AE_MetadataSearchResult_NextMatch(result, match, &pos)\<close> returns \<^verbatim>\<open>false\<close> when
  the position is past the last match; otherwise it loads the match at the position into
  \<^verbatim>\<open>match\<close>, advances the position and returns \<^verbatim>\<open>true\<close>.
  \<^verbatim>\<open>AE_MetadataSearchMatch_NextSegment\<close> does the same for the segments of a match and
  writes the four offsets. The values written through the out-parameters are the value of
  the model; \<open>None\<close> is \<^verbatim>\<open>false\<close>.
\<close>

record C_Segment =
  query_start :: "64 word"
  query_end :: "64 word"
  asset_start :: "64 word"
  asset_end :: "64 word"

record C_Match =
  asset_id :: "64 word"
  segments :: "C_Segment list"

record C_Result =
  lookup_id :: "64 word"
  ugc_id :: "64 word"
  matches :: "C_Match list"

definition AE_MetadataSearchResult_NextMatch :: "C_Result \<Rightarrow> nat \<Rightarrow> (C_Match \<times> nat) option" where
  "AE_MetadataSearchResult_NextMatch cResult pos =
     (if pos < length (matches cResult) then Some (matches cResult ! pos, pos + 1) else None)"

definition AE_MetadataSearchMatch_NextSegment ::
    "C_Match \<Rightarrow> nat \<Rightarrow> ((64 word \<times> 64 word \<times> 64 word \<times> 64 word) \<times> nat) option" where
  "AE_MetadataSearchMatch_NextSegment cMatch pos =
     (if pos < length (segments cMatch)
      then let s = segments cMatch ! pos
           in Some ((query_start s, query_end s, asset_start s, asset_end s), pos + 1)
      else None)"

definition AE_MetadataSearchMatch_GetAssetID :: "C_Match \<Rightarrow> 64 word" where
  "AE_MetadataSearchMatch_GetAssetID cMatch = asset_id cMatch"

definition AE_MetadataSearchResult_GetLookupID :: "C_Result \<Rightarrow> 64 word" where
  "AE_MetadataSearchResult_GetLookupID cResult = lookup_id cResult"

definition AE_MetadataSearchResult_GetUGCID :: "C_Result \<Rightarrow> 64 word" where
  "AE_MetadataSearchResult_GetUGCID cResult = ugc_id cResult"

text \<open>
  Modelled from the spec: the heap of C handles. A handle is live from its \<^verbatim>\<open>_New\<close> to its
  \<^verbatim>\<open>_Delete\<close>. \<^verbatim>\<open>_New\<close> returns \<^verbatim>\<open>NULL\<close> when no memory is left: \<open>avail\<close> counts the
  handles that can still be allocated. The heap records the kind of each live handle and
  what the library keeps in it between two calls: the fingerprint of a request and the
  lookup identifier of a future. What a call writes into a status or a result handle is
  read back at once by the caller, and is the value of the call in the model.
\<close>

datatype C_obj =
  StatusH
| RequestH "addr option"
| FutureH "64 word"
| ResultH
| MatchH

record world =
  heap :: "C_obj option list"
  avail :: nat

definition lookup :: "world \<Rightarrow> addr \<Rightarrow> C_obj option" where
  "lookup w a = (if a < length (heap w) then heap w ! a else None)"

definition C_New :: "C_obj \<Rightarrow> world \<Rightarrow> addr option \<times> world" where
  "C_New obj w =
     (if avail w = 0 then (None, w)
      else (Some (length (heap w)), w\<lparr>heap := heap w @ [Some obj], avail := avail w - 1\<rparr>))"

definition C_Delete :: "addr \<Rightarrow> world \<Rightarrow> world" where
  "C_Delete a w =
     (if lookup w a = None then w
      else w\<lparr>heap := (heap w)[a := None], avail := avail w + 1\<rparr>)"

definition C_Write :: "addr \<Rightarrow> C_obj \<Rightarrow> world \<Rightarrow> world" where
  "C_Write a obj w = w\<lparr>heap := (heap w)[a := Some obj]\<rparr>"

definition AE_Status_New :: "world \<Rightarrow> addr option \<times> world" where
  "AE_Status_New = C_New StatusH"

definition AE_Status_Delete :: "addr \<Rightarrow> world \<Rightarrow> world" where
  "AE_Status_Delete = C_Delete"

definition AE_MetadataSearchRequest_New :: "world \<Rightarrow> addr option \<times> world" where
  "AE_MetadataSearchRequest_New = C_New (RequestH None)"

definition AE_MetadataSearchRequest_Delete :: "addr \<Rightarrow> world \<Rightarrow> world" where
  "AE_MetadataSearchRequest_Delete = C_Delete"

definition AE_MetadataSearchFuture_New :: "world \<Rightarrow> addr option \<times> world" where
  "AE_MetadataSearchFuture_New = C_New (FutureH 0)"

definition AE_MetadataSearchFuture_Delete :: "addr \<Rightarrow> world \<Rightarrow> world" where
  "AE_MetadataSearchFuture_Delete = C_Delete"

definition AE_MetadataSearchResult_New :: "world \<Rightarrow> addr option \<times> world" where
  "AE_MetadataSearchResult_New = C_New ResultH"

definition AE_MetadataSearchResult_Delete :: "addr \<Rightarrow> world \<Rightarrow> world" where
  "AE_MetadataSearchResult_Delete = C_Delete"

definition AE_MetadataSearchMatch_New :: "world \<Rightarrow> addr option \<times> world" where
  "AE_MetadataSearchMatch_New = C_New MatchH"

definition AE_MetadataSearchMatch_Delete :: "addr \<Rightarrow> world \<Rightarrow> world" where
  "AE_MetadataSearchMatch_Delete = C_Delete"

text \<open>
  Modelled from the spec: the remote service behind the session handle. \<open>svc_start\<close>
  answers the submission of a fingerprint with a status and the lookup identifier it
  assigns; \<open>svc_get\<close> answers the fetch of the search with that identifier with a status
  and the completed result. \<open>None\<close> is a call that never comes back.
\<close>

record service =
  svc_start :: "addr \<Rightarrow> (AE_Status \<times> 64 word) option"
  svc_get :: "64 word \<Rightarrow> (AE_Status \<times> C_Result) option"

definition AE_MetadataSearchRequest_SetFingerprint :: "addr \<Rightarrow> addr \<Rightarrow> world \<Rightarrow> world" where
  "AE_MetadataSearchRequest_SetFingerprint cRequest fp w =
     (case lookup w cRequest of
        Some (RequestH _) \<Rightarrow> C_Write cRequest (RequestH (Some fp)) w
      | _ \<Rightarrow> w)"

text \<open>
  \<^verbatim>\<open>AE_MetadataSearch_Start(session, request, future, status)\<close>: submits the fingerprint
  of the request, writes the status and stores the assigned lookup identifier in the
  future. The value is the status written.
\<close>

definition AE_MetadataSearch_Start ::
    "service \<Rightarrow> addr \<Rightarrow> addr \<Rightarrow> world \<Rightarrow> AE_Status outcome \<times> world" where
  "AE_MetadataSearch_Start svc cRequest cFuture w =
     (case (lookup w cRequest, lookup w cFuture) of
        (Some (RequestH (Some fp)), Some (FutureH _)) \<Rightarrow>
          (case svc_start svc fp of
             None \<Rightarrow> (Blocked, w)
           | Some (st, ident) \<Rightarrow> (Returned st, C_Write cFuture (FutureH ident) w))
      | _ \<Rightarrow> (Crash, w))"

definition AE_MetadataSearchFuture_GetLookupID :: "addr \<Rightarrow> world \<Rightarrow> 64 word outcome" where
  "AE_MetadataSearchFuture_GetLookupID cFuture w =
     (case lookup w cFuture of Some (FutureH ident) \<Rightarrow> Returned ident | _ \<Rightarrow> Crash)"

text \<open>
  \<^verbatim>\<open>AE_MetadataSearchFuture_Get(future, result, status)\<close>: waits for the search of the
  future to complete, writes the status and fills the result. The value is the status and
  the result written.
\<close>

definition AE_MetadataSearchFuture_Get ::
    "service \<Rightarrow> addr \<Rightarrow> world \<Rightarrow> (AE_Status \<times> C_Result) outcome" where
  "AE_MetadataSearchFuture_Get svc cFuture w =
     (case lookup w cFuture of
        Some (FutureH ident) \<Rightarrow>
          (case svc_get svc ident of None \<Rightarrow> Blocked | Some r \<Rightarrow> Returned r)
      | _ \<Rightarrow> Crash)"

subsection \<open>The decoder: \<^verbatim>\<open>processResult\<close>\<close>

text \<open>The inner loop over \<^verbatim>\<open>AE_MetadataSearchMatch_NextSegment\<close>.\<close>

function segments_loop :: "C_Match \<Rightarrow> nat \<Rightarrow> Segment slice \<Rightarrow> Segment slice" where
  "segments_loop cMatch cSegmentsPos segs =
     (case AE_MetadataSearchMatch_NextSegment cMatch cSegmentsPos of
        None \<Rightarrow> segs
      | Some ((cQueryStart, cQueryEnd, cAssetStart, cAssetEnd), pos') \<Rightarrow>
          segments_loop cMatch pos'
            (append_slice segs
               \<lparr>QueryStart = int64 cQueryStart, QueryEnd = int64 cQueryEnd,
                AssetStart = int64 cAssetStart, AssetEnd = int64 cAssetEnd\<rparr>))"
  by pat_completeness auto
termination
  by (relation "measure (\<lambda>(cMatch, pos, segs). length (segments cMatch) - pos)")
     (auto simp: AE_MetadataSearchMatch_NextSegment_def Let_def split: if_splits)

declare segments_loop.simps [simp del]

text \<open>The outer loop over \<^verbatim>\<open>AE_MetadataSearchResult_NextMatch\<close>.\<close>

function matches_loop ::
    "C_Result \<Rightarrow> nat \<Rightarrow> MetadataSearchMatch slice \<Rightarrow> MetadataSearchMatch slice" where
  "matches_loop cResult cMatchesPos ms =
     (case AE_MetadataSearchResult_NextMatch cResult cMatchesPos of
        None \<Rightarrow> ms
      | Some (cMatch, pos') \<Rightarrow>
          (let segs = segments_loop cMatch 0 None
           in matches_loop cResult pos'
                (append_slice ms
                   \<lparr>AssetID = uint64 (AE_MetadataSearchMatch_GetAssetID cMatch),
                    Segments = segs\<rparr>)))"
  by pat_completeness auto
termination
  by (relation "measure (\<lambda>(cResult, pos, ms). length (matches cResult) - pos)")
     (auto simp: AE_MetadataSearchResult_NextMatch_def split: if_splits)

declare matches_loop.simps [simp del]

text \<open>
  \<^verbatim>\<open>processResult\<close>. The receiver is not used. The argument is the result the fetch has
  filled; the match handle allocated here is the scratch object of the outer cursor.
\<close>

definition processResult :: "C_Result \<Rightarrow> world \<Rightarrow> MetadataSearchResult outcome \<times> world" where
  "processResult cResult w =
     (case AE_MetadataSearchMatch_New w of
        (None, w1) \<Rightarrow> (Panic ''out of memory'', w1)
      | (Some cMatch, w1) \<Rightarrow>
          deferred (AE_MetadataSearchMatch_Delete cMatch)
            (let ms = matches_loop cResult 0 None
             in (Returned
                   \<lparr>LookupID = uint64 (AE_MetadataSearchResult_GetLookupID cResult),
                    UGCID = uint64 (AE_MetadataSearchResult_GetUGCID cResult),
                    Matches = ms\<rparr>, w1)))"

subsection \<open>The session: \<^verbatim>\<open>MetadataSearch.Start\<close>\<close>

text \<open>
  \<^verbatim>\<open>Start\<close>. The receiver holds the session handle; the service behind it is the first
  argument. The request pointer and the fingerprint pointer can both be \<^verbatim>\<open>nil\<close>, and
  \<^verbatim>\<open>req.Fingerprint.ft\<close> is read with no check before the remote call. The two deferred
  deletions run on every return and every panic.
\<close>

definition Start ::
    "service \<Rightarrow> MetadataSearchRequest option \<Rightarrow> world
      \<Rightarrow> (MetadataSearchFuture option \<times> go_error option) outcome \<times> world" where
  "Start svc req w =
     (case AE_Status_New w of
        (None, w1) \<Rightarrow> (Panic ''out of memory'', w1)
      | (Some cStatus, w1) \<Rightarrow>
          deferred (AE_Status_Delete cStatus)
            (case AE_MetadataSearchRequest_New w1 of
               (None, w2) \<Rightarrow> (Panic ''out of memory'', w2)
             | (Some cRequest, w2) \<Rightarrow>
                 deferred (AE_MetadataSearchRequest_Delete cRequest)
                   (case AE_MetadataSearchFuture_New w2 of
                      (None, w3) \<Rightarrow> (Panic ''out of memory'', w3)
                    | (Some cFuture, w3) \<Rightarrow>
                        (case req of
                           None \<Rightarrow> (Panic nil_dereference, w3)
                         | Some r \<Rightarrow>
                             (case Fingerprint r of
                                None \<Rightarrow> (Panic nil_dereference, w3)
                              | Some fp \<Rightarrow>
                                  (let w4 = AE_MetadataSearchRequest_SetFingerprint cRequest (ft fp) w3
                                   in case AE_MetadataSearch_Start svc cRequest cFuture w4 of
                                        (Returned st, w5) \<Rightarrow>
                                          (case statusToError st of
                                             Some err \<Rightarrow>
                                               (Returned (None, Some err),
                                                AE_MetadataSearchFuture_Delete cFuture w5)
                                           | None \<Rightarrow>
                                               (case AE_MetadataSearchFuture_GetLookupID cFuture w5 of
                                                  Returned ident \<Rightarrow>
                                                    (Returned
                                                       (Some \<lparr>Future_LookupID = uint64 ident,
                                                              Future_c = Some cFuture,
                                                              Future_m = False\<rparr>, None), w5)
                                                | Panic msg \<Rightarrow> (Panic msg, w5)
                                                | Blocked \<Rightarrow> (Blocked, w5)
                                                | Crash \<Rightarrow> (Crash, w5)))
                                      | (Panic msg, w5) \<Rightarrow> (Panic msg, w5)
                                      | (Blocked, w5) \<Rightarrow> (Blocked, w5)
                                      | (Crash, w5) \<Rightarrow> (Crash, w5)))))))"

subsection \<open>The future: \<^verbatim>\<open>MetadataSearchFuture.Get\<close> and \<^verbatim>\<open>close\<close>\<close>

text \<open>
  The state of a call on a future is the C heap and the future itself. \<^verbatim>\<open>close\<close> deletes
  the handle and sets the field \<^verbatim>\<open>c\<close> to \<^verbatim>\<open>nil\<close>; \<^verbatim>\<open>AE_MetadataSearchFuture_Delete\<close> of a
  \<^verbatim>\<open>NULL\<close> handle does nothing.
\<close>

type_synonym future_state = "world \<times> MetadataSearchFuture"

definition close :: "future_state \<Rightarrow> future_state" where
  "close s =
     (case Future_c (snd s) of
        None \<Rightarrow> s
      | Some h \<Rightarrow> (AE_MetadataSearchFuture_Delete h (fst s), (snd s)\<lparr>Future_c := None\<rparr>))"

definition Unlock :: "future_state \<Rightarrow> future_state" where
  "Unlock s = (fst s, (snd s)\<lparr>Future_m := False\<rparr>)"

definition on_world :: "(world \<Rightarrow> world) \<Rightarrow> future_state \<Rightarrow> future_state" where
  "on_world f s = (f (fst s), snd s)"

text \<open>
  \<^verbatim>\<open>Get\<close>, one call run to its end with no other call in between. \<^verbatim>\<open>Lock\<close> of a held
  mutex never returns. The deferred calls are, outermost first: \<^verbatim>\<open>Unlock\<close>, \<^verbatim>\<open>close\<close>
  (deferred only once the handle is known not to be \<^verbatim>\<open>nil\<close>), the deletion of the status
  and the deletion of the result.
\<close>

definition Get ::
    "service \<Rightarrow> MetadataSearchFuture \<Rightarrow> world
      \<Rightarrow> (MetadataSearchResult option \<times> go_error option) outcome \<times> future_state" where
  "Get svc x w =
     (if Future_m x then (Blocked, (w, x))
      else
        deferred Unlock
          (let x1 = x\<lparr>Future_m := True\<rparr>
           in case Future_c x1 of
                None \<Rightarrow> (Returned (None, Some (errorString ''already called'')), (w, x1))
              | Some h \<Rightarrow>
                  deferred close
                    (case AE_Status_New w of
                       (None, w1) \<Rightarrow> (Panic ''out of memory'', (w1, x1))
                     | (Some cStatus, w1) \<Rightarrow>
                         deferred (on_world (AE_Status_Delete cStatus))
                           (case AE_MetadataSearchResult_New w1 of
                              (None, w2) \<Rightarrow> (Panic ''out of memory'', (w2, x1))
                            | (Some cResult, w2) \<Rightarrow>
                                deferred (on_world (AE_MetadataSearchResult_Delete cResult))
                                  (case AE_MetadataSearchFuture_Get svc h w2 of
                                     Returned (st, res) \<Rightarrow>
                                       (case statusToError st of
                                          Some err \<Rightarrow> (Returned (None, Some err), (w2, x1))
                                        | None \<Rightarrow>
                                            (case processResult res w2 of
                                               (r, w3) \<Rightarrow>
                                                 (map_outcome (\<lambda>v. (Some v, None)) r, (w3, x1))))
                                   | Panic msg \<Rightarrow> (Panic msg, (w2, x1))
                                   | Blocked \<Rightarrow> (Blocked, (w2, x1))
                                   | Crash \<Rightarrow> (Crash, (w2, x1)))))))"

text \<open>\<open>n\<close> calls of \<^verbatim>\<open>Get\<close> on the same future, one after the other: what each call gave.\<close>

fun Get_times ::
    "service \<Rightarrow> nat \<Rightarrow> MetadataSearchFuture \<Rightarrow> world
      \<Rightarrow> (MetadataSearchResult option \<times> go_error option) outcome list" where
  "Get_times svc 0 x w = []"
| "Get_times svc (Suc n) x w =
     (case Get svc x w of (r, (w', x')) \<Rightarrow> r # Get_times svc n x' w')"

subsection \<open>The decoded value, field by field\<close>

text \<open>
  What the two loops are shown to build below: the C segments and matches in the order of
  the cursor, each field copied. A slice that was never appended to is \<^verbatim>\<open>nil\<close>.
\<close>

definition nil_if_empty :: "'a list \<Rightarrow> 'a slice" where
  "nil_if_empty xs = (if xs = [] then None else Some xs)"

definition Segment_of :: "C_Segment \<Rightarrow> Segment" where
  "Segment_of s =
     \<lparr>QueryStart = query_start s, QueryEnd = query_end s,
      AssetStart = asset_start s, AssetEnd = asset_end s\<rparr>"

definition Match_of :: "C_Match \<Rightarrow> MetadataSearchMatch" where
  "Match_of cm = \<lparr>AssetID = asset_id cm, Segments = nil_if_empty (map Segment_of (segments cm))\<rparr>"

subsection \<open>A small service, used to run the functions on concrete inputs\<close>

text \<open>
  A result with two matches, the first with no segment; a service that accepts every
  fingerprint under the lookup identifier 7 and completes with that result; a service that
  fails both remote calls; and the future and the heap that \<^verbatim>\<open>Start\<close> leaves on the first
  service.
\<close>

definition ex_result :: C_Result where
  "ex_result =
     \<lparr>lookup_id = 7, ugc_id = 9,
      matches =
        [\<lparr>asset_id = 5, segments = []\<rparr>,
         \<lparr>asset_id = 6,
          segments =
            [\<lparr>query_start = 10, query_end = 20, asset_start = 100, asset_end = 110\<rparr>,
             \<lparr>query_start = - 3, query_end = 4, asset_start = 120, asset_end = 127\<rparr>]\<rparr>]\<rparr>"

definition ex_empty_result :: C_Result where
  "ex_empty_result = \<lparr>lookup_id = 7, ugc_id = 9, matches = []\<rparr>"

definition ex_service :: service where
  "ex_service =
     \<lparr>svc_start = (\<lambda>fp. Some (StatusOK, 7)),
      svc_get = (\<lambda>ident. Some (StatusOK, ex_result))\<rparr>"

definition ex_failing_service :: service where
  "ex_failing_service =
     \<lparr>svc_start = (\<lambda>fp. Some (StatusFailed 14 ''unavailable'', 0)),
      svc_get = (\<lambda>ident. Some (StatusFailed 4 ''deadline exceeded'', ex_empty_result))\<rparr>"

definition ex_world :: world where
  "ex_world = \<lparr>heap = [], avail = 8\<rparr>"

definition ex_request :: MetadataSearchRequest where
  "ex_request = \<lparr>Fingerprint = Some \<lparr>ft = 42\<rparr>\<rparr>"

definition ex_future :: MetadataSearchFuture where
  "ex_future = \<lparr>Future_LookupID = 7, Future_c = Some 2, Future_m = False\<rparr>"

definition ex_world_started :: world where
  "ex_world_started = \<lparr>heap = [None, None, Some (FutureH 7)], avail = 7\<rparr>"

definition ex_decoded :: MetadataSearchResult where
  "ex_decoded =
     \<lparr>LookupID = 7, UGCID = 9,
      Matches =
        Some
          [\<lparr>AssetID = 5, Segments = None\<rparr>,
           \<lparr>AssetID = 6,
            Segments =
              Some
                [\<lparr>QueryStart = 10, QueryEnd = 20, AssetStart = 100, AssetEnd = 110\<rparr>,
                 \<lparr>QueryStart = - 3, QueryEnd = 4, AssetStart = 120, AssetEnd = 127\<rparr>]\<rparr>]\<rparr>"

section \<open>Properties\<close>

subsection \<open>Slices and the two loops\<close>

lemma elems_append_slice: "elems (append_slice s v) = elems s @ [v]"
  by (simp add: elems_def append_slice_def split: option.splits)

lemma append_slice_Some: "append_slice s v = Some (elems s @ [v])"
  by (simp add: elems_def append_slice_def split: option.splits)

lemma elems_Some: "elems (Some xs) = xs"
  by (simp add: elems_def)

lemma segments_loop_drop:
  "segments_loop cm pos acc =
     (if pos < length (segments cm)
      then Some (elems acc @ map Segment_of (drop pos (segments cm)))
      else acc)"
proof (induction cm pos acc rule: segments_loop.induct)
  case (1 cm pos acc)
  show ?case
  proof (cases "pos < length (segments cm)")
    case False
    then show ?thesis
      by (subst segments_loop.simps) (simp add: AE_MetadataSearchMatch_NextSegment_def)
  next
    case True
    let ?s = "segments cm ! pos"
    have nxt: "AE_MetadataSearchMatch_NextSegment cm pos =
        Some ((query_start ?s, query_end ?s, asset_start ?s, asset_end ?s), Suc pos)"
      using True by (simp add: AE_MetadataSearchMatch_NextSegment_def Let_def)
    have dr: "drop pos (segments cm) = ?s # drop (Suc pos) (segments cm)"
      using True by (simp add: Cons_nth_drop_Suc)
    have step: "segments_loop cm pos acc =
        segments_loop cm (Suc pos) (append_slice acc (Segment_of ?s))"
      by (subst segments_loop.simps) (simp add: nxt Segment_of_def int64_def)
    have ih: "segments_loop cm (Suc pos) (append_slice acc (Segment_of ?s)) =
        (if Suc pos < length (segments cm)
         then Some (elems (append_slice acc (Segment_of ?s)) @
                map Segment_of (drop (Suc pos) (segments cm)))
         else append_slice acc (Segment_of ?s))"
      using "1.IH" [OF nxt refl refl refl refl] by (simp add: Segment_of_def int64_def)
    show ?thesis
      unfolding step ih using True
      by (simp add: dr elems_Some append_slice_Some)
  qed
qed

lemma segments_loop_all: "segments_loop cm 0 None = nil_if_empty (map Segment_of (segments cm))"
  by (simp add: segments_loop_drop nil_if_empty_def elems_def)

lemma matches_loop_drop:
  "matches_loop r pos acc =
     (if pos < length (matches r)
      then Some (elems acc @ map Match_of (drop pos (matches r)))
      else acc)"
proof (induction r pos acc rule: matches_loop.induct)
  case (1 r pos acc)
  show ?case
  proof (cases "pos < length (matches r)")
    case False
    then show ?thesis
      by (subst matches_loop.simps) (simp add: AE_MetadataSearchResult_NextMatch_def)
  next
    case True
    let ?m = "matches r ! pos"
    have nxt: "AE_MetadataSearchResult_NextMatch r pos = Some (?m, Suc pos)"
      using True by (simp add: AE_MetadataSearchResult_NextMatch_def)
    have dr: "drop pos (matches r) = ?m # drop (Suc pos) (matches r)"
      using True by (simp add: Cons_nth_drop_Suc)
    have mk: "\<lparr>AssetID = uint64 (AE_MetadataSearchMatch_GetAssetID ?m),
               Segments = segments_loop ?m 0 None\<rparr> = Match_of ?m"
      by (simp add: Match_of_def uint64_def AE_MetadataSearchMatch_GetAssetID_def segments_loop_all)
    have step: "matches_loop r pos acc = matches_loop r (Suc pos) (append_slice acc (Match_of ?m))"
      by (subst matches_loop.simps) (simp add: nxt mk)
    have ih: "matches_loop r (Suc pos) (append_slice acc (Match_of ?m)) =
        (if Suc pos < length (matches r)
         then Some (elems (append_slice acc (Match_of ?m)) @ map Match_of (drop (Suc pos) (matches r)))
         else append_slice acc (Match_of ?m))"
      using "1.IH" [OF nxt refl refl] by (simp add: mk)
    show ?thesis
      unfolding step ih using True
      by (simp add: dr elems_Some append_slice_Some)
  qed
qed

lemma matches_loop_all: "matches_loop r 0 None = nil_if_empty (map Match_of (matches r))"
  by (simp add: matches_loop_drop nil_if_empty_def elems_def)


subsection \<open>The heap of handles\<close>

lemma C_New_ok:
  "0 < avail w \<Longrightarrow>
   C_New obj w = (Some (length (heap w)), w\<lparr>heap := heap w @ [Some obj], avail := avail w - 1\<rparr>)"
  by (simp add: C_New_def)

lemma C_New_oom: "avail w = 0 \<Longrightarrow> C_New obj w = (None, w)"
  by (simp add: C_New_def)

lemma lookup_fresh: "lookup w (length (heap w)) = None"
  by (simp add: lookup_def)

lemma lookup_C_New:
  "C_New obj w = (Some a, w') \<Longrightarrow> lookup w' b = (if b = a then Some obj else lookup w b)"
  by (auto simp: C_New_def lookup_def nth_append split: if_splits)

lemma lookup_C_Delete: "lookup (C_Delete a w) b = (if b = a then None else lookup w b)"
  by (auto simp: C_Delete_def lookup_def)

lemma avail_C_Delete:
  "avail (C_Delete a w) = (if lookup w a = None then avail w else avail w + 1)"
  by (simp add: C_Delete_def)

lemma lookup_C_Write:
  "lookup (C_Write a obj w) b = (if b = a \<and> a < length (heap w) then Some obj else lookup w b)"
  by (auto simp: C_Write_def lookup_def)

lemma avail_C_Write: "avail (C_Write a obj w) = avail w"
  by (simp add: C_Write_def)

subsection \<open>The paths of \<^verbatim>\<open>processResult\<close>, \<^verbatim>\<open>Start\<close> and \<^verbatim>\<open>Get\<close>\<close>

lemma processResult_ok:
  "0 < avail w \<Longrightarrow>
   processResult r w =
     (Returned \<lparr>LookupID = lookup_id r, UGCID = ugc_id r,
                Matches = nil_if_empty (map Match_of (matches r))\<rparr>,
      w\<lparr>heap := heap w @ [None]\<rparr>)"
  by (simp add: processResult_def AE_MetadataSearchMatch_New_def C_New_ok deferred_def
      AE_MetadataSearchMatch_Delete_def C_Delete_def lookup_def matches_loop_all uint64_def
      AE_MetadataSearchResult_GetLookupID_def AE_MetadataSearchResult_GetUGCID_def)

lemma processResult_oom:
  "avail w = 0 \<Longrightarrow> processResult r w = (Panic ''out of memory'', w)"
  by (simp add: processResult_def AE_MetadataSearchMatch_New_def C_New_oom)

lemmas C_calls =
  AE_Status_New_def AE_Status_Delete_def AE_MetadataSearchRequest_New_def
  AE_MetadataSearchRequest_Delete_def AE_MetadataSearchFuture_New_def
  AE_MetadataSearchFuture_Delete_def AE_MetadataSearchResult_New_def
  AE_MetadataSearchResult_Delete_def AE_MetadataSearchMatch_New_def
  AE_MetadataSearchMatch_Delete_def

lemma Start_submitted:
  assumes "3 \<le> avail w" and "Fingerprint r = Some fp"
    and "svc_start svc (ft fp) = Some (st, ident)"
  shows "Start svc (Some r) w =
     (case statusToError st of
        Some err \<Rightarrow> (Returned (None, Some err), w\<lparr>heap := heap w @ [None, None, None]\<rparr>)
      | None \<Rightarrow>
          (Returned (Some \<lparr>Future_LookupID = ident, Future_c = Some (length (heap w) + 2),
                           Future_m = False\<rparr>, None),
           w\<lparr>heap := heap w @ [None, None, Some (FutureH ident)], avail := avail w - 1\<rparr>))"
  using assms
  by (simp add: Start_def C_calls C_New_ok deferred_def C_Delete_def C_Write_def lookup_def
      AE_MetadataSearchRequest_SetFingerprint_def AE_MetadataSearch_Start_def
      AE_MetadataSearchFuture_GetLookupID_def nth_append uint64_def list_update_append
      split: option.splits)


lemma deferred_simps:
  "deferred f (Returned v, s) = (Returned v, f s)"
  "deferred f (Panic msg, s) = (Panic msg, f s)"
  "deferred f (Blocked, s) = (Blocked, s)"
  "deferred f (Crash, s) = (Crash, s)"
  by (simp_all add: deferred_def)

lemma deferred_Returned:
  "deferred f rs = (Returned v, s') \<Longrightarrow> \<exists>s. rs = (Returned v, s) \<and> s' = f s"
  by (cases rs) (auto simp: deferred_def split: outcome.splits)

lemma unlocked_future: "\<not> Future_m x \<Longrightarrow> x\<lparr>Future_m := False\<rparr> = x"
  by (cases x) simp

lemma Get_consumed:
  "Future_c x = None \<Longrightarrow> \<not> Future_m x \<Longrightarrow>
   Get svc x w = (Returned (None, Some (errorString ''already called'')), (w, x))"
  by (simp add: Get_def deferred_simps Unlock_def unlocked_future)

lemma Get_Returned_state:
  assumes "Get svc x w = (Returned v, (w', x'))"
  shows "Future_c x' = None \<and> \<not> Future_m x'"
proof -
  from assms have unl: "\<not> Future_m x"
    by (auto simp: Get_def)
  show ?thesis
  proof (cases "Future_c x")
    case None
    with unl assms show ?thesis
      by (simp add: Get_consumed)
  next
    case (Some h)
    from assms unl Some obtain rs where
      "deferred Unlock (deferred close rs) = (Returned v, (w', x'))"
      by (auto simp: Get_def Let_def)
    then obtain s where "(w', x') = Unlock (close s)"
      by (auto dest!: deferred_Returned)
    then show ?thesis
      by (cases s) (auto simp: Unlock_def close_def split: option.splits)
  qed
qed

lemma Get_fetch_failed:
  assumes "\<not> Future_m x" and "Future_c x = Some h" and "lookup w h = Some (FutureH ident)"
    and "2 \<le> avail w" and "svc_get svc ident = Some (st, cres)"
    and "statusToError st = Some err"
  shows "Get svc x w =
     (Returned (None, Some err),
      (w\<lparr>heap := (heap w)[h := None] @ [None, None], avail := avail w + 1\<rparr>,
       x\<lparr>Future_c := None\<rparr>))"
proof -
  have h: "h < length (heap w)" "heap w ! h = Some (FutureH ident)"
    using assms(3) by (auto simp: lookup_def split: if_splits)
  have x: "x\<lparr>Future_m := True, Future_c := None, Future_m := False\<rparr> = x\<lparr>Future_c := None\<rparr>"
    using assms(1) by (cases x) simp
  show ?thesis
    using assms h
    by (simp add: Get_def C_calls C_New_ok deferred_simps C_Delete_def lookup_def
        AE_MetadataSearchFuture_Get_def nth_append list_update_append close_def Unlock_def
        on_world_def x)
qed

lemma Get_fetch_ok:
  assumes "\<not> Future_m x" and "Future_c x = Some h" and "lookup w h = Some (FutureH ident)"
    and "3 \<le> avail w" and "svc_get svc ident = Some (st, cres)"
    and "statusToError st = None"
  shows "Get svc x w =
     (Returned (Some \<lparr>LookupID = lookup_id cres, UGCID = ugc_id cres,
                      Matches = nil_if_empty (map Match_of (matches cres))\<rparr>, None),
      (w\<lparr>heap := (heap w)[h := None] @ [None, None, None], avail := avail w + 1\<rparr>,
       x\<lparr>Future_c := None\<rparr>))"
proof -
  have h: "h < length (heap w)" "heap w ! h = Some (FutureH ident)"
    using assms(3) by (auto simp: lookup_def split: if_splits)
  have x: "x\<lparr>Future_m := True, Future_c := None, Future_m := False\<rparr> = x\<lparr>Future_c := None\<rparr>"
    using assms(1) by (cases x) simp
  show ?thesis
    using assms h
    by (simp add: Get_def C_calls C_New_ok deferred_simps C_Delete_def lookup_def
        AE_MetadataSearchFuture_Get_def nth_append list_update_append close_def Unlock_def
        on_world_def x processResult_ok)
qed

lemma map_outcome_Returned:
  "(map_outcome f r = Returned p) = (\<exists>v. r = Returned v \<and> p = f v)"
  by (cases r) auto

lemma Start_oom:
  assumes "avail w < 3"
  shows "fst (Start svc req w) = Panic ''out of memory''"
proof -
  consider "avail w = 0" | "avail w = 1" | "avail w = 2"
    using assms by arith
  then show ?thesis
    by cases (simp_all add: Start_def C_calls C_New_def deferred_def)
qed

lemma Start_nil_request:
  "3 \<le> avail w \<Longrightarrow> fst (Start svc None w) = Panic nil_dereference"
  by (simp add: Start_def C_calls C_New_ok deferred_def)

lemma Start_nil_fingerprint:
  "3 \<le> avail w \<Longrightarrow> Fingerprint r = None \<Longrightarrow>
   fst (Start svc (Some r) w) = Panic nil_dereference"
  by (simp add: Start_def C_calls C_New_ok deferred_def)

lemma Start_blocked:
  "3 \<le> avail w \<Longrightarrow> Fingerprint r = Some fp \<Longrightarrow> svc_start svc (ft fp) = None \<Longrightarrow>
   fst (Start svc (Some r) w) = Blocked"
  by (simp add: Start_def C_calls C_New_ok deferred_def C_Write_def lookup_def
      AE_MetadataSearchRequest_SetFingerprint_def AE_MetadataSearch_Start_def nth_append)

lemma Start_Returned_future:
  assumes "Start svc req w = (Returned (Some x, e), w1)"
  shows "\<exists>r fp st ident h.
           req = Some r \<and> Fingerprint r = Some fp \<and>
           svc_start svc (ft fp) = Some (st, ident) \<and> statusToError st = None \<and>
           Future_LookupID x = ident \<and> Future_c x = Some h \<and>
           lookup w1 h = Some (FutureH ident) \<and> \<not> Future_m x \<and> e = None"
proof -
  have av: "3 \<le> avail w"
  proof (rule ccontr)
    assume "\<not> 3 \<le> avail w"
    then have "fst (Start svc req w) = Panic ''out of memory''"
      by (simp add: Start_oom)
    then show False
      by (simp add: assms)
  qed
  obtain r where r: "req = Some r"
  proof (cases req)
    case None
    then have "fst (Start svc req w) = Panic nil_dereference"
      by (simp add: Start_nil_request av)
    then show ?thesis
      by (simp add: assms)
  qed simp
  obtain fp where fp: "Fingerprint r = Some fp"
  proof (cases "Fingerprint r")
    case None
    then have "fst (Start svc req w) = Panic nil_dereference"
      by (simp add: r Start_nil_fingerprint av)
    then show ?thesis
      by (simp add: assms)
  qed simp
  obtain st ident where sv: "svc_start svc (ft fp) = Some (st, ident)"
  proof (cases "svc_start svc (ft fp)")
    case None
    then have "fst (Start svc req w) = Blocked"
      by (simp add: r Start_blocked [OF av fp])
    then show ?thesis
      by (simp add: assms)
  qed auto
  note sub = Start_submitted [OF av fp sv]
  show ?thesis
  proof (cases "statusToError st")
    case (Some err)
    with sub have "Start svc req w = (Returned (None, Some err), w\<lparr>heap := heap w @ [None, None, None]\<rparr>)"
      by (simp add: r)
    then show ?thesis
      by (simp add: assms)
  next
    case None
    with sub have "Start svc req w =
        (Returned (Some \<lparr>Future_LookupID = ident, Future_c = Some (length (heap w) + 2),
                          Future_m = False\<rparr>, None),
         w\<lparr>heap := heap w @ [None, None, Some (FutureH ident)], avail := avail w - 1\<rparr>)"
      by (simp add: r)
    then have x: "x = \<lparr>Future_LookupID = ident, Future_c = Some (length (heap w) + 2),
                        Future_m = False\<rparr>"
      and e: "e = None"
      and w1: "w1 = w\<lparr>heap := heap w @ [None, None, Some (FutureH ident)], avail := avail w - 1\<rparr>"
      by (simp_all add: assms)
    have "lookup w1 (length (heap w) + 2) = Some (FutureH ident)"
      by (simp add: w1 lookup_def nth_append)
    with r fp sv None show ?thesis
      by (simp add: x e)
  qed
qed

lemma Get_locked: "Future_m x \<Longrightarrow> Get svc x w = (Blocked, (w, x))"
  by (simp add: Get_def)

lemma Get_oom:
  assumes "\<not> Future_m x" and "Future_c x = Some h" and "avail w < 2"
  shows "fst (Get svc x w) = Panic ''out of memory''"
proof -
  consider "avail w = 0" | "avail w = 1"
    using assms by arith
  then show ?thesis
    using assms(1,2) by cases (simp_all add: Get_def C_calls C_New_def deferred_def)
qed

lemma Get_blocked:
  "\<not> Future_m x \<Longrightarrow> Future_c x = Some h \<Longrightarrow> 2 \<le> avail w \<Longrightarrow>
   lookup w h = Some (FutureH ident) \<Longrightarrow> svc_get svc ident = None \<Longrightarrow>
   fst (Get svc x w) = Blocked"
  by (simp add: Get_def C_calls C_New_ok deferred_def lookup_def nth_append
      AE_MetadataSearchFuture_Get_def split: if_splits)

lemma Get_decode_oom:
  "\<not> Future_m x \<Longrightarrow> Future_c x = Some h \<Longrightarrow> avail w = 2 \<Longrightarrow>
   lookup w h = Some (FutureH ident) \<Longrightarrow> svc_get svc ident = Some (st, cres) \<Longrightarrow>
   statusToError st = None \<Longrightarrow> fst (Get svc x w) = Panic ''out of memory''"
  by (simp add: Get_def C_calls C_New_ok deferred_def lookup_def nth_append
      AE_MetadataSearchFuture_Get_def processResult_oom split: if_splits)

lemma Get_Returned_unlocked: "Get svc x w = (Returned v, s) \<Longrightarrow> \<not> Future_m x"
  by (rule notI) (simp add: Get_locked)

lemma Get_Returned_result:
  assumes "Get svc x w = (Returned (Some res, e), s)" and "Future_c x = Some h"
    and "lookup w h = Some (FutureH ident)"
  shows "\<exists>st cres. svc_get svc ident = Some (st, cres) \<and> statusToError st = None \<and>
           res = \<lparr>LookupID = lookup_id cres, UGCID = ugc_id cres,
                  Matches = nil_if_empty (map Match_of (matches cres))\<rparr>"
proof -
  have unl: "\<not> Future_m x"
    using assms(1) by (rule Get_Returned_unlocked)
  have av: "2 \<le> avail w"
  proof (rule ccontr)
    assume "\<not> 2 \<le> avail w"
    then have "fst (Get svc x w) = Panic ''out of memory''"
      by (simp add: Get_oom [OF unl assms(2)])
    then show False
      by (simp add: assms(1))
  qed
  obtain st cres where sv: "svc_get svc ident = Some (st, cres)"
  proof (cases "svc_get svc ident")
    case None
    then have "fst (Get svc x w) = Blocked"
      by (rule Get_blocked [OF unl assms(2) av assms(3)])
    then show ?thesis
      by (simp add: assms(1))
  qed auto
  have ok: "statusToError st = None"
  proof (cases "statusToError st")
    case (Some err)
    then have "fst (Get svc x w) = Returned (None, Some err)"
      by (simp add: Get_fetch_failed [OF unl assms(2,3) av sv])
    then show ?thesis
      by (simp add: assms(1))
  qed simp
  have av3: "3 \<le> avail w"
  proof (rule ccontr)
    assume "\<not> 3 \<le> avail w"
    with av have "avail w = 2"
      by simp
    then have "fst (Get svc x w) = Panic ''out of memory''"
      by (rule Get_decode_oom [OF unl assms(2) _ assms(3) sv ok])
    then show False
      by (simp add: assms(1))
  qed
  have "fst (Get svc x w) =
      Returned (Some \<lparr>LookupID = lookup_id cres, UGCID = ugc_id cres,
                       Matches = nil_if_empty (map Match_of (matches cres))\<rparr>, None)"
    by (simp add: Get_fetch_ok [OF unl assms(2,3) av3 sv ok])
  then have "res = \<lparr>LookupID = lookup_id cres, UGCID = ugc_id cres,
                    Matches = nil_if_empty (map Match_of (matches cres))\<rparr>"
    by (simp add: assms(1))
  with sv ok show ?thesis
    by simp
qed

subsection \<open>The functions on the concrete service\<close>

lemmas ex_defs = ex_result_def ex_empty_result_def ex_service_def ex_failing_service_def
  ex_world_def ex_request_def ex_future_def ex_world_started_def ex_decoded_def

lemma ex_Start: "Start ex_service (Some ex_request) ex_world = (Returned (Some ex_future, None), ex_world_started)"
  using Start_submitted [of ex_world ex_request "\<lparr>ft = 42\<rparr>" ex_service StatusOK 7]
  by (simp add: ex_defs statusToError_def)

lemma ex_Start_failing:
  "Start ex_failing_service (Some ex_request) ex_world =
     (Returned (None, Some (StatusError 14 ''unavailable'')), \<lparr>heap = [None, None, None], avail = 8\<rparr>)"
  using Start_submitted [of ex_world ex_request "\<lparr>ft = 42\<rparr>" ex_failing_service "StatusFailed 14 ''unavailable''" 0]
  by (simp add: ex_defs statusToError_def)

lemma ex_processResult:
  "processResult ex_result ex_world = (Returned ex_decoded, \<lparr>heap = [None], avail = 8\<rparr>)"
  by (simp add: processResult_ok ex_defs nil_if_empty_def Match_of_def Segment_of_def)

lemma ex_Get:
  "Get ex_service ex_future ex_world_started =
     (Returned (Some ex_decoded, None),
      (\<lparr>heap = [None, None, None, None, None, None], avail = 8\<rparr>,
       \<lparr>Future_LookupID = 7, Future_c = None, Future_m = False\<rparr>))"
  using Get_fetch_ok [of ex_future 2 ex_world_started 7 ex_service StatusOK ex_result]
  by (simp add: ex_defs statusToError_def lookup_def nil_if_empty_def Match_of_def Segment_of_def)

lemma ex_Get_failing:
  "Get ex_failing_service ex_future ex_world_started =
     (Returned (None, Some (StatusError 4 ''deadline exceeded'')),
      (\<lparr>heap = [None, None, None, None, None], avail = 8\<rparr>,
       \<lparr>Future_LookupID = 7, Future_c = None, Future_m = False\<rparr>))"
  using Get_fetch_failed [of ex_future 2 ex_world_started 7 ex_failing_service
      "StatusFailed 4 ''deadline exceeded''" ex_empty_result "StatusError 4 ''deadline exceeded''"]
  by (simp add: ex_defs statusToError_def lookup_def)

lemma Get_times_consumed:
  "Future_c x = None \<Longrightarrow> \<not> Future_m x \<Longrightarrow>
   Get_times svc n x w = replicate n (Returned (None, Some (errorString ''already called'')))"
  by (induction n) (simp_all add: Get_consumed)

lemma elems_nil_if_empty: "elems (nil_if_empty xs) = xs"
  by (simp add: nil_if_empty_def elems_def)

lemma lookup_after_Get:
  assumes "h < length (heap w)" and "set ys \<subseteq> {None}"
  shows "lookup (w\<lparr>heap := (heap w)[h := None] @ ys, avail := n\<rparr>) a =
     (if a = h then None else lookup w a)"
proof -
  have "ys ! i = None" if "i < length ys" for i
    using assms(2) nth_mem [OF that] by auto
  then show ?thesis
    using assms(1) by (auto simp: lookup_def nth_append)
qed

lemma lookup_after_Start:
  "lookup (w\<lparr>heap := heap w @ [None, None, None]\<rparr>) a = lookup w a"
  by (auto simp: lookup_def nth_append nth_Cons split: nat.splits)

lemma ex_processResult_empty:
  "processResult ex_empty_result ex_world =
     (Returned \<lparr>LookupID = 7, UGCID = 9, Matches = None\<rparr>, \<lparr>heap = [None], avail = 8\<rparr>)"
  by (simp add: processResult_ok ex_defs nil_if_empty_def)

section \<open>The claims\<close>

text \<open>
  C1. Once a call of \<^verbatim>\<open>Get\<close> on a future has returned, with a result or with an error,
  the next call on that future, in any state of the heap and whatever the service would
  answer, returns no result and the error \<^verbatim>\<open>already called\<close>, and leaves the future and
  the heap as they are; so do any number of calls one after the other.
\<close>

theorem Get_at_most_once:
  assumes "Get svc x w = (Returned v, (w1, x1))"
  shows "Get svc' x1 w2 = (Returned (None, Some (errorString ''already called'')), (w2, x1)) \<and>
         Get_times svc' n x1 w2 =
           replicate n (Returned (None, Some (errorString ''already called'')))"
proof -
  from assms have "Future_c x1 = None \<and> \<not> Future_m x1"
    by (rule Get_Returned_state)
  then show ?thesis
    by (simp add: Get_consumed Get_times_consumed)
qed

theorem Get_at_most_once_witness:
  "Get ex_failing_service ex_future ex_world_started =
     (Returned (None, Some (StatusError 4 ''deadline exceeded'')),
      (\<lparr>heap = [None, None, None, None, None], avail = 8\<rparr>,
       \<lparr>Future_LookupID = 7, Future_c = None, Future_m = False\<rparr>)) \<and>
   Get ex_service \<lparr>Future_LookupID = 7, Future_c = None, Future_m = False\<rparr> ex_world =
     (Returned (None, Some (errorString ''already called'')),
      (ex_world, \<lparr>Future_LookupID = 7, Future_c = None, Future_m = False\<rparr>)) \<and>
   Get_times ex_service 3 \<lparr>Future_LookupID = 7, Future_c = None, Future_m = False\<rparr> ex_world =
     replicate 3 (Returned (None, Some (errorString ''already called'')))"
  using Get_at_most_once [OF ex_Get_failing, of ex_service ex_world 3] ex_Get_failing
  by simp

text \<open>
  C9. Whenever \<^verbatim>\<open>Get\<close> returns, exactly one of its two values is not \<^verbatim>\<open>nil\<close>: the result
  is not \<^verbatim>\<open>nil\<close> if and only if the error is \<^verbatim>\<open>nil\<close>.
\<close>

theorem Get_result_xor_error:
  assumes "Get svc x w = (Returned (res, err), s)"
  shows "(res \<noteq> None) = (err = None)"
  using assms
  by (auto simp: Get_def Let_def deferred_def map_outcome_Returned
      split: if_splits option.splits prod.splits outcome.splits)
     metis

theorem Get_result_xor_error_witness:
  "Get ex_service ex_future ex_world_started =
     (Returned (Some ex_decoded, None),
      (\<lparr>heap = [None, None, None, None, None, None], avail = 8\<rparr>,
       \<lparr>Future_LookupID = 7, Future_c = None, Future_m = False\<rparr>)) \<and>
   (Some ex_decoded \<noteq> None) = ((None :: go_error option) = None)"
  using Get_result_xor_error [OF ex_Get] ex_Get
  by simp

text \<open>
  C2. When the remote fetch of \<^verbatim>\<open>Get\<close> fails (the future is live and unlocked, the status
  and the result handle can be allocated, and the service answers with a status that
  \<^verbatim>\<open>statusToError\<close> turns into an error), \<^verbatim>\<open>Get\<close> returns that error and no result, and
  on return the field \<^verbatim>\<open>c\<close> of the future is \<^verbatim>\<open>nil\<close>, the mutex is released, the handle
  of the future is deleted and every other handle of the heap is as before.
\<close>

theorem Get_fetch_failure_consumes:
  assumes "\<not> Future_m x" and "Future_c x = Some h" and "lookup w h = Some (FutureH ident)"
    and "2 \<le> avail w" and "svc_get svc ident = Some (st, cres)"
    and "statusToError st = Some err"
  shows "\<exists>w' x'. Get svc x w = (Returned (None, Some err), (w', x')) \<and>
           Future_c x' = None \<and> \<not> Future_m x' \<and> Future_LookupID x' = Future_LookupID x \<and>
           (\<forall>a. lookup w' a = (if a = h then None else lookup w a)) \<and>
           avail w' = avail w + 1"
proof -
  have h: "h < length (heap w)"
    using assms(3) by (auto simp: lookup_def split: if_splits)
  have "\<forall>a. lookup (w\<lparr>heap := (heap w)[h := None] @ [None, None], avail := avail w + 1\<rparr>) a =
      (if a = h then None else lookup w a)"
    by (simp add: lookup_after_Get [OF h])
  then show ?thesis
    using assms(1) by (simp add: Get_fetch_failed [OF assms])
qed

theorem Get_fetch_failure_consumes_witness:
  "\<not> Future_m ex_future \<and> Future_c ex_future = Some 2 \<and>
   lookup ex_world_started 2 = Some (FutureH 7) \<and> 2 \<le> avail ex_world_started \<and>
   svc_get ex_failing_service 7 = Some (StatusFailed 4 ''deadline exceeded'', ex_empty_result) \<and>
   statusToError (StatusFailed 4 ''deadline exceeded'') = Some (StatusError 4 ''deadline exceeded'') \<and>
   (\<exists>w' x'. Get ex_failing_service ex_future ex_world_started =
        (Returned (None, Some (StatusError 4 ''deadline exceeded'')), (w', x')) \<and>
      Future_c x' = None \<and> \<not> Future_m x' \<and> Future_LookupID x' = Future_LookupID ex_future \<and>
      (\<forall>a. lookup w' a = (if a = 2 then None else lookup ex_world_started a)) \<and>
      avail w' = avail ex_world_started + 1)"
proof -
  have a: "\<not> Future_m ex_future" "Future_c ex_future = Some 2"
    "lookup ex_world_started 2 = Some (FutureH 7)" "2 \<le> avail ex_world_started"
    "svc_get ex_failing_service 7 = Some (StatusFailed 4 ''deadline exceeded'', ex_empty_result)"
    "statusToError (StatusFailed 4 ''deadline exceeded'') = Some (StatusError 4 ''deadline exceeded'')"
    by (simp_all add: ex_defs lookup_def statusToError_def)
  from Get_fetch_failure_consumes [OF a] a show ?thesis
    by blast
qed

text \<open>
  C3, amended. A completed result with no match decodes to a result whose \<^verbatim>\<open>Matches\<close>
  has length 0 and is the \<^verbatim>\<open>nil\<close> slice, and a match with no segment decodes to a match
  whose \<^verbatim>\<open>Segments\<close> has length 0 and is the \<^verbatim>\<open>nil\<close> slice: the two slices are declared
  by \<^verbatim>\<open>var\<close> and only ever appended to.
\<close>

theorem processResult_empty_is_nil:
  assumes "0 < avail w"
  shows "\<exists>res w'. processResult r w = (Returned res, w') \<and>
           (matches r = [] \<longrightarrow> Matches res = None \<and> len (Matches res) = 0) \<and>
           (\<forall>i<length (matches r). segments (matches r ! i) = [] \<longrightarrow>
              Segments (elems (Matches res) ! i) = None \<and>
              len (Segments (elems (Matches res) ! i)) = 0)"
  by (simp add: processResult_ok [OF assms] elems_nil_if_empty Match_of_def)
     (simp add: nil_if_empty_def len_def)

theorem processResult_empty_is_nil_witness:
  "0 < avail ex_world \<and> matches ex_empty_result = [] \<and>
   0 < length (matches ex_result) \<and> segments (matches ex_result ! 0) = [] \<and>
   (\<exists>res w'. processResult ex_empty_result ex_world = (Returned res, w') \<and>
      Matches res = None \<and> len (Matches res) = 0) \<and>
   (\<exists>res w'. processResult ex_result ex_world = (Returned res, w') \<and>
      Segments (elems (Matches res) ! 0) = None \<and>
      len (Segments (elems (Matches res) ! 0)) = 0)"
proof -
  have a: "0 < avail ex_world" "matches ex_empty_result = []"
    "0 < length (matches ex_result)" "segments (matches ex_result ! 0) = []"
    by (simp_all add: ex_defs)
  from processResult_empty_is_nil [OF a(1), of ex_empty_result]
    processResult_empty_is_nil [OF a(1), of ex_result] a
  show ?thesis
    by blast
qed

text \<open>
  As the claim C3 is written, with sequences that are empty but not \<^verbatim>\<open>nil\<close>, it fails:
  a result with no match decodes to the \<^verbatim>\<open>nil\<close> slice of matches, and a match with no
  segment to the \<^verbatim>\<open>nil\<close> slice of segments.
\<close>

theorem processResult_empty_counterexample:
  "fst (processResult ex_empty_result ex_world) =
     Returned \<lparr>LookupID = 7, UGCID = 9, Matches = None\<rparr> \<and>
   fst (processResult ex_result ex_world) =
     Returned
       \<lparr>LookupID = 7, UGCID = 9,
        Matches =
          Some
            [\<lparr>AssetID = 5, Segments = None\<rparr>,
             \<lparr>AssetID = 6,
              Segments =
                Some
                  [\<lparr>QueryStart = 10, QueryEnd = 20, AssetStart = 100, AssetEnd = 110\<rparr>,
                   \<lparr>QueryStart = - 3, QueryEnd = 4, AssetStart = 120, AssetEnd = 127\<rparr>]\<rparr>]\<rparr>"
  by (simp add: ex_processResult_empty ex_processResult) (simp add: ex_decoded_def)

text \<open>
  C4. The decoded \<^verbatim>\<open>Matches\<close> are the matches of the cursor, one for one and in its
  order, and the \<^verbatim>\<open>Segments\<close> of each are the segments of that match's cursor, one for one
  and in its order: nothing is sorted, dropped or repeated.
\<close>

theorem processResult_preserves_order:
  assumes "0 < avail w"
  shows "\<exists>res w'. processResult r w = (Returned res, w') \<and>
           map AssetID (elems (Matches res)) = map asset_id (matches r) \<and>
           map (\<lambda>m. elems (Segments m)) (elems (Matches res)) =
             map (\<lambda>cm. map Segment_of (segments cm)) (matches r)"
  by (simp add: processResult_ok [OF assms] elems_nil_if_empty Match_of_def comp_def)

theorem processResult_preserves_order_witness:
  "0 < avail ex_world \<and>
   (\<exists>res w'. processResult ex_result ex_world = (Returned res, w') \<and>
      map AssetID (elems (Matches res)) = [5, 6] \<and>
      map (\<lambda>m. elems (Segments m)) (elems (Matches res)) =
        [[],
         [\<lparr>QueryStart = 10, QueryEnd = 20, AssetStart = 100, AssetEnd = 110\<rparr>,
          \<lparr>QueryStart = - 3, QueryEnd = 4, AssetStart = 120, AssetEnd = 127\<rparr>]])"
proof -
  have a: "0 < avail ex_world"
    by (simp add: ex_defs)
  from processResult_preserves_order [OF a, of ex_result] a show ?thesis
    by (simp add: ex_result_def Segment_of_def)
qed

text \<open>
  C5. Every segment the cursor yields is decoded to a \<^verbatim>\<open>Segment\<close> with the same four
  signed 64-bit offsets, each in its own field.
\<close>

theorem processResult_segment_offsets:
  assumes "0 < avail w" and "i < length (matches r)"
    and "j < length (segments (matches r ! i))"
  shows "\<exists>res w'. processResult r w = (Returned res, w') \<and>
           (let s = elems (Segments (elems (Matches res) ! i)) ! j;
                c = segments (matches r ! i) ! j
            in sint (QueryStart s) = sint (query_start c) \<and>
               sint (QueryEnd s) = sint (query_end c) \<and>
               sint (AssetStart s) = sint (asset_start c) \<and>
               sint (AssetEnd s) = sint (asset_end c))"
  using assms(2,3)
  by (simp add: processResult_ok [OF assms(1)] elems_nil_if_empty Match_of_def Segment_of_def
      Let_def)

theorem processResult_segment_offsets_witness:
  "0 < avail ex_world \<and> 1 < length (matches ex_result) \<and>
   0 < length (segments (matches ex_result ! 1)) \<and>
   (\<exists>res w'. processResult ex_result ex_world = (Returned res, w') \<and>
      (let s = elems (Segments (elems (Matches res) ! 1)) ! 0
       in sint (QueryStart s) = 10 \<and> sint (QueryEnd s) = 20 \<and>
          sint (AssetStart s) = 100 \<and> sint (AssetEnd s) = 110))"
proof -
  have a: "0 < avail ex_world" "1 < length (matches ex_result)"
    "0 < length (segments (matches ex_result ! 1))"
    by (simp_all add: ex_defs)
  from processResult_segment_offsets [OF a] a show ?thesis
    by (simp add: ex_result_def Let_def)
qed

text \<open>
  C6. When the remote submission fails (the three handles can be allocated, the request
  has a fingerprint, and the service answers with a status that \<^verbatim>\<open>statusToError\<close> turns
  into an error), \<^verbatim>\<open>Start\<close> returns the \<^verbatim>\<open>nil\<close> future and that error, and every handle it
  allocated, the future handle among them, is deleted: the heap holds the live handles it
  held before, and as much memory is available.
\<close>

theorem Start_failure_releases:
  assumes "3 \<le> avail w" and "Fingerprint r = Some fp"
    and "svc_start svc (ft fp) = Some (st, ident)" and "statusToError st = Some err"
  shows "\<exists>w'. Start svc (Some r) w = (Returned (None, Some err), w') \<and>
           (\<forall>a. lookup w' a = lookup w a) \<and> avail w' = avail w"
  by (simp add: Start_submitted [OF assms(1,2,3)] assms(4) lookup_after_Start)

theorem Start_failure_releases_witness:
  "3 \<le> avail ex_world \<and> Fingerprint ex_request = Some \<lparr>ft = 42\<rparr> \<and>
   svc_start ex_failing_service (ft \<lparr>ft = 42\<rparr>) = Some (StatusFailed 14 ''unavailable'', 0) \<and>
   statusToError (StatusFailed 14 ''unavailable'') = Some (StatusError 14 ''unavailable'') \<and>
   (\<exists>w'. Start ex_failing_service (Some ex_request) ex_world =
        (Returned (None, Some (StatusError 14 ''unavailable'')), w') \<and>
      (\<forall>a. lookup w' a = lookup ex_world a) \<and> avail w' = avail ex_world)"
proof -
  have a: "3 \<le> avail ex_world" "Fingerprint ex_request = Some \<lparr>ft = 42\<rparr>"
    "svc_start ex_failing_service (ft \<lparr>ft = 42\<rparr>) = Some (StatusFailed 14 ''unavailable'', 0)"
    "statusToError (StatusFailed 14 ''unavailable'') = Some (StatusError 14 ''unavailable'')"
    by (simp_all add: ex_defs statusToError_def)
  from Start_failure_releases [OF a] a show ?thesis
    by blast
qed

text \<open>
  C7. For a future that \<^verbatim>\<open>Start\<close> returned on a request whose submission the service
  answered with the lookup identifier \<open>ident\<close>, and whose handle is still as \<^verbatim>\<open>Start\<close>
  left it: the \<^verbatim>\<open>LookupID\<close> of the future is \<open>ident\<close>, and if the service completes
  the search of \<open>ident\<close> with a result that reports \<open>ident\<close> again, the \<^verbatim>\<open>LookupID\<close> of the
  result that \<^verbatim>\<open>Get\<close> returns is the \<^verbatim>\<open>LookupID\<close> of the future.
\<close>

theorem LookupID_round_trip:
  assumes "Start svc (Some r) w = (Returned (Some x, e), w1)"
    and "Fingerprint r = Some fp"
    and "svc_start svc (ft fp) = Some (st0, ident)"
    and "\<forall>h. Future_c x = Some h \<longrightarrow> lookup w2 h = lookup w1 h"
    and "Get svc x w2 = (Returned (Some res, e'), s)"
    and "\<forall>st cres. svc_get svc ident = Some (st, cres) \<longrightarrow> lookup_id cres = ident"
  shows "Future_LookupID x = ident \<and> LookupID res = Future_LookupID x"
proof -
  from Start_Returned_future [OF assms(1)] obtain r' fp' st' ident' h where
    sub: "Some r = Some r'" "Fingerprint r' = Some fp'"
      "svc_start svc (ft fp') = Some (st', ident')"
    and fut: "Future_LookupID x = ident'" "Future_c x = Some h"
      "lookup w1 h = Some (FutureH ident')"
    by blast
  from sub assms(2,3) have ident: "ident' = ident"
    by simp
  from fut(2,3) assms(4) have "lookup w2 h = Some (FutureH ident)"
    by (simp add: ident)
  from Get_Returned_result [OF assms(5) fut(2) this] obtain st cres where
    "svc_get svc ident = Some (st, cres)" "LookupID res = lookup_id cres"
    by auto
  with assms(6) fut(1) show ?thesis
    by (simp add: ident)
qed

theorem LookupID_round_trip_witness:
  "Start ex_service (Some ex_request) ex_world = (Returned (Some ex_future, None), ex_world_started) \<and>
   Fingerprint ex_request = Some \<lparr>ft = 42\<rparr> \<and>
   svc_start ex_service (ft \<lparr>ft = 42\<rparr>) = Some (StatusOK, 7) \<and>
   Get ex_service ex_future ex_world_started =
     (Returned (Some ex_decoded, None),
      (\<lparr>heap = [None, None, None, None, None, None], avail = 8\<rparr>,
       \<lparr>Future_LookupID = 7, Future_c = None, Future_m = False\<rparr>)) \<and>
   svc_get ex_service 7 = Some (StatusOK, ex_result) \<and> lookup_id ex_result = 7 \<and>
   Future_LookupID ex_future = 7 \<and> LookupID ex_decoded = Future_LookupID ex_future"
proof -
  have a: "Fingerprint ex_request = Some \<lparr>ft = 42\<rparr>"
    "svc_start ex_service (ft \<lparr>ft = 42\<rparr>) = Some (StatusOK, 7)"
    by (simp_all add: ex_defs)
  have b: "\<forall>h. Future_c ex_future = Some h \<longrightarrow> lookup ex_world_started h = lookup ex_world_started h"
    by simp
  have c: "svc_get ex_service 7 = Some (StatusOK, ex_result)" "lookup_id ex_result = 7"
    by (simp_all add: ex_defs)
  then have d: "\<forall>st cres. svc_get ex_service 7 = Some (st, cres) \<longrightarrow> lookup_id cres = 7"
    by simp
  from LookupID_round_trip [OF ex_Start a b ex_Get d] ex_Start ex_Get a c show ?thesis
    by blast
qed

text \<open>
  C10. For a request whose \<^verbatim>\<open>Fingerprint\<close> is \<^verbatim>\<open>nil\<close>, \<^verbatim>\<open>Start\<close> never returns, so it
  returns no error for the invalid argument: it panics, and when the three handles can be
  allocated the panic is the dereference of the \<^verbatim>\<open>nil\<close> pointer.
\<close>

theorem Start_nil_Fingerprint_panics:
  assumes "Fingerprint r = None"
  shows "(\<exists>msg. fst (Start svc (Some r) w) = Panic msg) \<and>
         (\<forall>v. fst (Start svc (Some r) w) \<noteq> Returned v) \<and>
         (3 \<le> avail w \<longrightarrow> fst (Start svc (Some r) w) = Panic nil_dereference)"
proof (cases "3 \<le> avail w")
  case True
  then show ?thesis
    by (simp add: Start_nil_fingerprint [OF True assms])
next
  case False
  then have "fst (Start svc (Some r) w) = Panic ''out of memory''"
    by (simp add: Start_oom)
  with False show ?thesis
    by simp
qed

theorem Start_nil_Fingerprint_panics_witness:
  "Fingerprint \<lparr>Fingerprint = None\<rparr> = None \<and> 3 \<le> avail ex_world \<and>
   fst (Start ex_service (Some \<lparr>Fingerprint = None\<rparr>) ex_world) = Panic nil_dereference \<and>
   (\<forall>v. fst (Start ex_service (Some \<lparr>Fingerprint = None\<rparr>) ex_world) \<noteq> Returned v)"
proof -
  have a: "Fingerprint \<lparr>Fingerprint = None\<rparr> = None" "3 \<le> avail ex_world"
    by (simp_all add: ex_defs)
  from Start_nil_Fingerprint_panics [OF a(1), of ex_service ex_world] a show ?thesis
    by blast
qed

end
